theory Spec2Isabelle
  imports Complex_Main "HOL-Library.Word" "HOL-Library.Multiset"
begin

section \<open>The speed-test server: payload streaming and upload counting\<close>

text \<open>
  The server exists in two revisions in the repository.  The file \<^verbatim>\<open>src/main.go\<close> is the
  plain server; the second Go file stored in \<^verbatim>\<open>src/cli/help.go\<close> is the revision with the
  Prometheus counters, the \<^verbatim>\<open>defaultDownloadSize\<close> global and the graceful shutdown.
  Definitions of the second revision carry the suffix \<open>_m\<close>.  Log output is not modelled.
\<close>

type_synonym byte = "8 word"

definition bytes_of :: "string \<Rightarrow> byte list" where
  "bytes_of s = map of_char s"

subsection \<open>strconv: decimal conversion of Go's 64-bit int\<close>

definition digit_val :: "char \<Rightarrow> nat option" where
  "digit_val c =
     (let k = (of_char c :: nat) in if 48 \<le> k \<and> k \<le> 57 then Some (k - 48) else None)"

fun parse_digits :: "string \<Rightarrow> nat \<Rightarrow> nat option" where
  "parse_digits [] acc = Some acc"
| "parse_digits (c # cs) acc =
     (case digit_val c of None \<Rightarrow> None | Some d \<Rightarrow> parse_digits cs (acc * 10 + d))"

text \<open>
  \<^verbatim>\<open>strconv.Atoi\<close>: an optional sign, then at least one decimal digit and nothing else;
  a value outside the 64-bit range of \<^verbatim>\<open>int\<close> is an error (\<open>None\<close>).
\<close>

definition Atoi :: "string \<Rightarrow> int option" where
  "Atoi s =
     (case s of
        [] \<Rightarrow> None
      | c # cs \<Rightarrow>
          (let neg = (c = CHR ''-'');
               ds = (if c = CHR ''-'' \<or> c = CHR ''+'' then cs else s)
           in if ds = [] then None
              else (case parse_digits ds 0 of
                      None \<Rightarrow> None
                    | Some n \<Rightarrow>
                        (let v = (if neg then - int n else int n)
                         in if - (2 ^ 63) \<le> v \<and> v < 2 ^ 63 then Some v else None))))"

definition digit_char :: "nat \<Rightarrow> char" where
  "digit_char d = ''0123456789'' ! d"

function digits_of :: "nat \<Rightarrow> string" where
  "digits_of n = (if n < 10 then [digit_char n] else digits_of (n div 10) @ [digit_char (n mod 10)])"
  by pat_completeness auto
termination
  by (relation "measure (\<lambda>n. n)") auto

declare digits_of.simps [simp del]

text \<open>\<^verbatim>\<open>strconv.Itoa\<close>, also the verb \<^verbatim>\<open>%d\<close> of \<^verbatim>\<open>fmt\<close>.\<close>

definition Itoa :: "int \<Rightarrow> string" where
  "Itoa i = (if i < 0 then CHR ''-'' # digits_of (nat (- i)) else digits_of (nat i))"

subsection \<open>net/http: query values and the response writer\<close>

text \<open>\<^verbatim>\<open>url.Values\<close> is \<^verbatim>\<open>map[string][]string\<close>; \<^verbatim>\<open>Get\<close> returns the first value of the
  key, and the empty string when the key is absent or has no value.\<close>

type_synonym Values = "string \<rightharpoonup> string list"

definition Values_Get :: "Values \<Rightarrow> string \<Rightarrow> string" where
  "Values_Get v key = (case v key of None \<Rightarrow> [] | Some [] \<Rightarrow> [] | Some (x # _) \<Rightarrow> x)"

text \<open>
  The response writer as a state: the header map, the status line once it is sent
  (\<open>None\<close> before), and the data of every successful \<^verbatim>\<open>Write\<close> call in order.  The field
  \<open>writes_left\<close> belongs to the environment: \<open>Some k\<close> means that the peer goes away after
  \<open>k\<close> more successful writes, so that the next \<^verbatim>\<open>Write\<close> returns an error; \<open>None\<close> means
  that no write ever fails.
\<close>

record ResponseWriter =
  Header :: "string \<rightharpoonup> string"
  status :: "nat option"
  written :: "byte list list"
  writes_left :: "nat option"

definition new_writer :: "nat option \<Rightarrow> ResponseWriter" where
  "new_writer k = \<lparr>Header = Map.empty, status = None, written = [], writes_left = k\<rparr>"

definition body :: "ResponseWriter \<Rightarrow> byte list" where
  "body w = concat (written w)"

definition Header_Set :: "ResponseWriter \<Rightarrow> string \<Rightarrow> string \<Rightarrow> ResponseWriter" where
  "Header_Set w k v = w\<lparr>Header := (Header w)(k \<mapsto> v)\<rparr>"

definition Header_Del :: "ResponseWriter \<Rightarrow> string \<Rightarrow> ResponseWriter" where
  "Header_Del w k = w\<lparr>Header := (Header w)(k := None)\<rparr>"

text \<open>\<^verbatim>\<open>WriteHeader\<close> sends the status line once; a second call changes nothing.\<close>

definition WriteHeader :: "ResponseWriter \<Rightarrow> nat \<Rightarrow> ResponseWriter" where
  "WriteHeader w code = (case status w of None \<Rightarrow> w\<lparr>status := Some code\<rparr> | Some _ \<Rightarrow> w)"

text \<open>\<^verbatim>\<open>Write\<close> sends status 200 first when no status was sent yet.  The boolean is
  \<open>True\<close> when the call returned no error.\<close>

definition Write :: "ResponseWriter \<Rightarrow> byte list \<Rightarrow> ResponseWriter \<times> bool" where
  "Write w bs =
     (case writes_left w of
        Some 0 \<Rightarrow> (w, False)
      | Some (Suc k) \<Rightarrow>
          ((WriteHeader w 200)\<lparr>written := written w @ [bs], writes_left := Some k\<rparr>, True)
      | None \<Rightarrow> ((WriteHeader w 200)\<lparr>written := written w @ [bs]\<rparr>, True))"

text \<open>\<^verbatim>\<open>http.Error\<close>: plain-text headers, the status code, then the message and a newline.\<close>

definition http_Error :: "ResponseWriter \<Rightarrow> string \<Rightarrow> nat \<Rightarrow> ResponseWriter" where
  "http_Error w msg code =
     (let w1 = Header_Del w ''Content-Length'';
          w2 = Header_Set w1 ''Content-Type'' ''text/plain; charset=utf-8'';
          w3 = Header_Set w2 ''X-Content-Type-Options'' ''nosniff'';
          w4 = WriteHeader w3 code
      in fst (Write w4 (bytes_of (msg @ [CHR 0x0A]))))"

subsection \<open>The download handler\<close>

text \<open>
  The loop \<^verbatim>\<open>for sent < totalSize\<close> of \<^verbatim>\<open>downloadHandler\<close>, the same in both revisions.
  With an empty payload chunk the loop body writes nothing and never advances, so the loop
  carries fuel: one unit per iteration, \<open>None\<close> when it runs out.  The boolean of the result
  is \<open>False\<close> when a write error made the handler return early.
\<close>

fun stream_loop ::
  "nat \<Rightarrow> byte list \<Rightarrow> int \<Rightarrow> int \<Rightarrow> ResponseWriter \<Rightarrow> (ResponseWriter \<times> bool) option" where
  "stream_loop 0 payloadChunk totalSize sent w =
     (if sent < totalSize then None else Some (w, True))"
| "stream_loop (Suc fuel) payloadChunk totalSize sent w =
     (if sent < totalSize then
        (let chunkSize = int (length payloadChunk);
             n = totalSize - sent;
             n = (if n > chunkSize then chunkSize else n)
         in (case Write w (take (nat n) payloadChunk) of
               (w', False) \<Rightarrow> Some (w', False)
             | (w', True) \<Rightarrow> stream_loop fuel payloadChunk totalSize (sent + n) w'))
      else Some (w, True))"

text \<open>\<^verbatim>\<open>downloadHandler\<close> of \<^verbatim>\<open>src/main.go\<close>: the size is 40 MiB when the parameter is empty.\<close>

definition downloadHandler ::
  "nat \<Rightarrow> byte list \<Rightarrow> Values \<Rightarrow> ResponseWriter \<Rightarrow> ResponseWriter option" where
  "downloadHandler fuel payloadChunk query w =
     (let sizeParam = Values_Get query ''size'';
          parsed = (if sizeParam = [] then Some (40 * 1024 * 1024)
                    else (case Atoi sizeParam of
                            None \<Rightarrow> None
                          | Some t \<Rightarrow> if t \<le> 0 then None else Some t))
      in case parsed of
           None \<Rightarrow> Some (http_Error w ''invalid size parameter'' 400)
         | Some totalSize \<Rightarrow>
             (let w1 = Header_Set w ''Content-Type'' ''application/octet-stream'';
                  w2 = Header_Set w1 ''Content-Length'' (Itoa totalSize)
              in map_option fst (stream_loop fuel payloadChunk totalSize 0 w2)))"

text \<open>The globals of the second revision.  The Prometheus counters hold sums of integers
  here (the library stores them as floating-point numbers).  A counter only grows:
  \<^verbatim>\<open>Add\<close> panics on a negative argument, and the handler ends without returning.\<close>

datatype 'a outcome = Returned 'a | Panicked

definition Counter_Add :: "int \<Rightarrow> int \<Rightarrow> int outcome" where
  "Counter_Add c v = (if v < 0 then Panicked else Returned (c + v))"

record globals_m =
  payloadChunk_m :: "byte list"
  defaultDownloadSize :: int
  pingCounter :: int
  downloadByteCnt :: int
  uploadByteCnt :: int

definition downloadHandler_m ::
  "nat \<Rightarrow> globals_m \<Rightarrow> Values \<Rightarrow> ResponseWriter \<Rightarrow>
     (globals_m \<times> ResponseWriter) outcome option" where
  "downloadHandler_m fuel g query w =
     (let sizeParam = Values_Get query ''size'';
          parsed = (if sizeParam = [] then Some (defaultDownloadSize g)
                    else (case Atoi sizeParam of
                            None \<Rightarrow> None
                          | Some t \<Rightarrow> if t \<le> 0 then None else Some t))
      in case parsed of
           None \<Rightarrow> Some (Returned (g, http_Error w ''invalid size parameter'' 400))
         | Some totalSize \<Rightarrow>
             (let w1 = Header_Set w ''Content-Type'' ''application/octet-stream'';
                  w2 = Header_Set w1 ''Content-Length'' (Itoa totalSize)
              in (case stream_loop fuel (payloadChunk_m g) totalSize 0 w2 of
                    None \<Rightarrow> None
                  | Some (w', False) \<Rightarrow> Some (Returned (g, w'))
                  | Some (w', True) \<Rightarrow>
                      (case Counter_Add (downloadByteCnt g) totalSize of
                         Panicked \<Rightarrow> Some Panicked
                       | Returned c \<Rightarrow> Some (Returned (g\<lparr>downloadByteCnt := c\<rparr>, w'))))))"

text \<open>What the loop writes when nothing fails: whole chunks, then the truncated rest.\<close>

definition expected_writes :: "byte list \<Rightarrow> nat \<Rightarrow> byte list list" where
  "expected_writes chunk n =
     replicate (n div length chunk) chunk @
     (if n mod length chunk = 0 then [] else [take (n mod length chunk) chunk])"

subsection \<open>The ping handler\<close>

definition pingHandler :: "ResponseWriter \<Rightarrow> ResponseWriter" where
  "pingHandler w = fst (Write (WriteHeader w 200) (bytes_of ''pong''))"

definition pingHandler_m :: "globals_m \<Rightarrow> ResponseWriter \<Rightarrow> globals_m \<times> ResponseWriter" where
  "pingHandler_m g w =
     (g\<lparr>pingCounter := pingCounter g + 1\<rparr>, fst (Write (WriteHeader w 200) (bytes_of ''pong'')))"

subsection \<open>The upload handler\<close>

text \<open>
  A request body as the handler reads it: the data of the successive reads, and how the
  stream ends (end of file, or a read error such as a broken connection).  The body is
  finite.
\<close>

datatype read_end = EOF | ReadError

record Body =
  reads :: "byte list list"
  ending :: read_end

text \<open>\<^verbatim>\<open>io.Copy(io.Discard, r)\<close>: the number of bytes read, and whether an error other than
  end of file stopped the copy.\<close>

fun copy_loop :: "byte list list \<Rightarrow> read_end \<Rightarrow> int \<Rightarrow> int \<times> bool" where
  "copy_loop [] e n = (n, e = ReadError)"
| "copy_loop (c # cs) e n = copy_loop cs e (n + int (length c))"

definition io_Copy_Discard :: "Body \<Rightarrow> int \<times> bool" where
  "io_Copy_Discard b = copy_loop (reads b) (ending b) 0"

definition uploadHandler :: "Body \<Rightarrow> ResponseWriter \<Rightarrow> ResponseWriter" where
  "uploadHandler b w =
     (case io_Copy_Discard b of
        (bytesRead, True) \<Rightarrow> http_Error w ''error reading body'' 500
      | (bytesRead, False) \<Rightarrow>
          (let w1 = WriteHeader w 200
           in fst (Write w1 (bytes_of (''received '' @ Itoa bytesRead @ '' bytes'')))))"

definition uploadHandler_m ::
  "globals_m \<Rightarrow> Body \<Rightarrow> ResponseWriter \<Rightarrow> (globals_m \<times> ResponseWriter) outcome" where
  "uploadHandler_m g b w =
     (case io_Copy_Discard b of
        (bytesRead, True) \<Rightarrow> Returned (g, http_Error w ''error reading body'' 500)
      | (bytesRead, False) \<Rightarrow>
          (let w1 = WriteHeader w 200;
               w2 = fst (Write w1 (bytes_of (''received '' @ Itoa bytesRead @ '' bytes'')))
           in (case Counter_Add (uploadByteCnt g) bytesRead of
                 Panicked \<Rightarrow> Panicked
               | Returned c \<Rightarrow> Returned (g\<lparr>uploadByteCnt := c\<rparr>, w2))))"

subsection \<open>Server start-up\<close>

text \<open>The parsed command line of the server.  Durations are nanoseconds.\<close>

record flags =
  port :: int
  rTimeout :: int
  wTimeout :: int
  idleTimeout :: int
  chunkSize :: int
  randomize :: bool
  defaultSize :: int

datatype startup_error = makeslice_panic | rand_fatal

text \<open>\<^verbatim>\<open>make([]byte, n)\<close> panics on a negative length; a non-negative length gives zeros
  (running out of memory is not modelled).\<close>

definition make_bytes :: "int \<Rightarrow> startup_error + byte list" where
  "make_bytes n = (if n < 0 then Inl makeslice_panic else Inr (replicate (nat n) 0))"

text \<open>
  The payload chunk as \<^verbatim>\<open>main\<close> prepares it.  The random source is a parameter:
  \<open>Some f\<close> fills position \<open>i\<close> with \<open>f i\<close>, \<open>None\<close> is a source that reports an error.
\<close>

definition prepare_chunk :: "flags \<Rightarrow> (nat \<Rightarrow> byte) option \<Rightarrow> startup_error + byte list" where
  "prepare_chunk f rnd =
     (case make_bytes (chunkSize f) of
        Inl e \<Rightarrow> Inl e
      | Inr zeros \<Rightarrow>
          (if randomize f then
             (case rnd of None \<Rightarrow> Inl rand_fatal
              | Some r \<Rightarrow> Inr (map r [0 ..< length zeros]))
           else Inr zeros))"

text \<open>The state in which \<^verbatim>\<open>main\<close> of \<^verbatim>\<open>src/main.go\<close> calls \<^verbatim>\<open>ListenAndServe\<close>: the global
  payload chunk, the listen address and the registered patterns.  The flag
  \<^verbatim>\<open>default-size\<close> is parsed and logged, and used nowhere else.\<close>

record server_state =
  payloadChunk :: "byte list"
  Addr :: string
  patterns :: "string list"

definition main :: "flags \<Rightarrow> (nat \<Rightarrow> byte) option \<Rightarrow> startup_error + server_state" where
  "main f rnd =
     (case prepare_chunk f rnd of
        Inl e \<Rightarrow> Inl e
      | Inr chunk \<Rightarrow>
          Inr \<lparr>payloadChunk = chunk,
               Addr = '':'' @ Itoa (port f),
               patterns = [''/ping'', ''/download'', ''/upload'']\<rparr>)"

record server_state_m =
  globals :: globals_m
  Addr_m :: string
  patterns_m :: "string list"

definition main_m ::
  "flags \<Rightarrow> (nat \<Rightarrow> byte) option \<Rightarrow> startup_error + server_state_m" where
  "main_m f rnd =
     (case prepare_chunk f rnd of
        Inl e \<Rightarrow> Inl e
      | Inr chunk \<Rightarrow>
          Inr \<lparr>globals = \<lparr>payloadChunk_m = chunk, defaultDownloadSize = defaultSize f,
                            pingCounter = 0, downloadByteCnt = 0, uploadByteCnt = 0\<rparr>,
               Addr_m = '':'' @ Itoa (port f),
               patterns_m = [''/ping'', ''/download'', ''/upload'', ''/healthz'', ''/metrics'']\<rparr>)"

text \<open>The complete answer to a download of \<open>n\<close> bytes on a connection that stays up.\<close>

definition full_response :: "byte list \<Rightarrow> int \<Rightarrow> ResponseWriter" where
  "full_response chunk n =
     \<lparr>Header = [''Content-Type'' \<mapsto> ''application/octet-stream'',
                ''Content-Length'' \<mapsto> Itoa n],
      status = Some 200,
      written = expected_writes chunk (nat n),
      writes_left = None\<rparr>"

section \<open>The client: the measurement driver of \<^verbatim>\<open>src/cli/main.go\<close>\<close>

definition serverBase :: string where
  "serverBase = ''http://localhost:8080''"

definition testSize :: nat where
  "testSize = 100 * 1024 * 1024"

definition streams :: nat where
  "streams = 4"

subsection \<open>Floating-point speeds\<close>

text \<open>
  A \<^verbatim>\<open>float64\<close> is one of four kinds: a finite number, an infinity, or not-a-number.
  A finite result is the exact quotient here; the rounding to 53 bits and the sign of zero
  are not modelled.  Division never panics in Go: a zero divisor gives an infinity, or
  not-a-number for \<open>0 / 0\<close>.
\<close>

datatype f64 = Fin real | PosInf | NegInf | NaN

fun f64_div :: "f64 \<Rightarrow> f64 \<Rightarrow> f64" where
  "f64_div NaN _ = NaN"
| "f64_div _ NaN = NaN"
| "f64_div (Fin a) (Fin b) =
     (if b = 0 then (if a = 0 then NaN else if 0 < a then PosInf else NegInf)
      else Fin (a / b))"
| "f64_div (Fin a) _ = Fin 0"
| "f64_div PosInf (Fin b) = (if 0 \<le> b then PosInf else NegInf)"
| "f64_div NegInf (Fin b) = (if 0 \<le> b then NegInf else PosInf)"
| "f64_div _ _ = NaN"

definition float64 :: "int \<Rightarrow> f64" where
  "float64 i = Fin (of_int i)"

text \<open>\<^verbatim>\<open>time.Duration\<close> counts nanoseconds; \<^verbatim>\<open>Seconds\<close> converts to seconds.\<close>

definition Seconds :: "int \<Rightarrow> f64" where
  "Seconds d = Fin (of_int d / 10 ^ 9)"

subsection \<open>Model, messages and \<^verbatim>\<open>Update\<close>\<close>

text \<open>Of the progress widget only the two fields that \<^verbatim>\<open>Update\<close> touches are kept:
  the width, and the value passed to \<^verbatim>\<open>SetPercent\<close> (the widget clamps it to the range
  from 0 to 1 itself).\<close>

record progress_Model =
  Width :: int
  percent :: f64

record model =
  phase :: string
  latency :: int
  downloadSpeed :: f64
  uploadSpeed :: f64
  progress :: progress_Model

text \<open>The messages of the program; \<open>otherMsg\<close> stands for the messages of the
  framework (keys, window size) that reach the \<^verbatim>\<open>default\<close> branch.\<close>

datatype Msg =
    pingMsg int
  | downloadMsg int int
  | uploadMsg int int
  | progressMsg string int int
  | errorMsg
  | otherMsg

text \<open>The commands that \<^verbatim>\<open>Init\<close> and \<^verbatim>\<open>Update\<close> return; \<open>NoCmd\<close> is \<^verbatim>\<open>nil\<close>.\<close>

datatype Cmd = NoCmd | PingTest | DownloadTest | UploadTest | Quit

definition initialModel :: model where
  "initialModel =
     \<lparr>phase = ''ping'', latency = 0, downloadSpeed = Fin 0, uploadSpeed = Fin 0,
      progress = \<lparr>Width = 40, percent = Fin 0\<rparr>\<rparr>"

definition Init :: Cmd where
  "Init = PingTest"

fun Update :: "model \<Rightarrow> Msg \<Rightarrow> model \<times> Cmd" where
  "Update m (pingMsg d) = (m\<lparr>latency := d, phase := ''download''\<rparr>, DownloadTest)"
| "Update m (downloadMsg b d) =
     (m\<lparr>downloadSpeed := f64_div (f64_div (float64 b) (Seconds d)) (Fin (1024 * 1024)),
        phase := ''upload''\<rparr>, UploadTest)"
| "Update m (uploadMsg b d) =
     (m\<lparr>uploadSpeed := f64_div (f64_div (float64 b) (Seconds d)) (Fin (1024 * 1024)),
        phase := ''done''\<rparr>, Quit)"
| "Update m (progressMsg p dn tot) =
     ((if tot > 0
       then m\<lparr>progress := (progress m)\<lparr>percent := f64_div (float64 dn) (float64 tot)\<rparr>\<rparr>
       else m), NoCmd)"
| "Update m errorMsg = (m\<lparr>phase := ''error'', progress := (progress m)\<lparr>Width := 0\<rparr>\<rparr>, Quit)"
| "Update m otherMsg = (m, NoCmd)"

subsection \<open>The network as the commands see it\<close>

text \<open>
  What the server side answers is the environment of a run.  \<^verbatim>\<open>httpClient.Get\<close> and
  \<^verbatim>\<open>httpClient.Do\<close> return an error for a transport failure (connection refused,
  timeout) and a response otherwise, whatever its status code.  The elapsed times are the
  values of \<^verbatim>\<open>time.Since(start)\<close>.
\<close>

record http_Response =
  StatusCode :: nat
  resp_body :: Body

datatype stream_result = NewRequest_error | Do_error | Do_response http_Response

record env =
  ping_get :: "http_Response option"
  ping_elapsed :: int
  download_get :: "http_Response option"
  download_elapsed :: int
  upload_do :: "nat \<Rightarrow> stream_result"
  upload_elapsed :: int

datatype request = GET string | POST string nat

text \<open>A command yields the requests it issued and the messages it delivers.\<close>

definition pingTestCmd :: "env \<Rightarrow> request list \<times> Msg list" where
  "pingTestCmd e =
     ([GET (serverBase @ ''/ping'')],
      [case ping_get e of None \<Rightarrow> errorMsg | Some resp \<Rightarrow> pingMsg (ping_elapsed e)])"

definition downloadTestCmd :: "env \<Rightarrow> request list \<times> Msg list" where
  "downloadTestCmd e =
     ([GET (serverBase @ ''/download?size='' @ Itoa (int testSize))],
      [case download_get e of
         None \<Rightarrow> errorMsg
       | Some resp \<Rightarrow>
           (case io_Copy_Discard (resp_body resp) of
              (n, True) \<Rightarrow> errorMsg
            | (n, False) \<Rightarrow> downloadMsg n (download_elapsed e))])"

subsection \<open>The upload fan-out\<close>

text \<open>The two counters shared by the goroutines of \<^verbatim>\<open>uploadTestCmd\<close>.\<close>

record shared =
  totalBytes :: int
  counter :: int

fun succeeded :: "stream_result \<Rightarrow> bool" where
  "succeeded (Do_response _) = True"
| "succeeded _ = False"

text \<open>
  One goroutine: it builds the request, sends it, and adds the segment size to both
  counters only when \<^verbatim>\<open>Do\<close> returned no error.
\<close>

definition stream_goroutine ::
  "nat \<Rightarrow> stream_result \<Rightarrow> shared \<times> request list \<Rightarrow> shared \<times> request list" where
  "stream_goroutine segSize r st =
     (case r of
        NewRequest_error \<Rightarrow> st
      | Do_error \<Rightarrow> (fst st, snd st @ [POST (serverBase @ ''/upload'') segSize])
      | Do_response resp \<Rightarrow>
          ((fst st)\<lparr>totalBytes := totalBytes (fst st) + int segSize,
                     counter := counter (fst st) + int segSize\<rparr>,
           snd st @ [POST (serverBase @ ''/upload'') segSize]))"

text \<open>
  The state after \<^verbatim>\<open>wg.Wait()\<close>.  The goroutines touch the shared state in the atomic
  additions only, and these take effect one after another, so the joined state is that of
  running the goroutines in some order; \<open>join_streams\<close> takes the order of its list.
\<close>

definition join_streams :: "nat \<Rightarrow> stream_result list \<Rightarrow> shared \<times> request list" where
  "join_streams segSize rs =
     foldl (\<lambda>st r. stream_goroutine segSize r st) (\<lparr>totalBytes = 0, counter = 0\<rparr>, []) rs"

text \<open>\<^verbatim>\<open>makeProgressCmd\<close>: the message of the tick, \<open>None\<close> for \<^verbatim>\<open>nil\<close>.\<close>

definition makeProgressCmd :: "int \<Rightarrow> int \<Rightarrow> string \<Rightarrow> Msg option" where
  "makeProgressCmd dn tot ph = (if dn \<ge> tot then None else Some (progressMsg ph dn tot))"

text \<open>
  \<^verbatim>\<open>uploadTestCmd\<close> with the two constants as parameters.  It returns a batch of two
  commands, which the framework runs: the first delivers the \<^verbatim>\<open>uploadMsg\<close> at once, the
  second is the tick, which reads the counter 100 ms later, after the join.
\<close>

definition uploadTestCmd_for :: "nat \<Rightarrow> nat \<Rightarrow> env \<Rightarrow> request list \<times> Msg list" where
  "uploadTestCmd_for tSize nStreams e =
     (let segSize = tSize div nStreams;
          (sh, reqs) = join_streams segSize (map (upload_do e) [0 ..< nStreams]);
          dur = upload_elapsed e
      in (reqs,
          uploadMsg (totalBytes sh) dur #
          (case makeProgressCmd (counter sh) (int tSize) ''upload'' of
             None \<Rightarrow> [] | Some msg \<Rightarrow> [msg])))"

definition uploadTestCmd :: "env \<Rightarrow> request list \<times> Msg list" where
  "uploadTestCmd e = uploadTestCmd_for testSize streams e"

subsection \<open>The event loop of the framework\<close>

fun exec :: "env \<Rightarrow> Cmd \<Rightarrow> request list \<times> Msg list" where
  "exec e PingTest = pingTestCmd e"
| "exec e DownloadTest = downloadTestCmd e"
| "exec e UploadTest = uploadTestCmd e"
| "exec e NoCmd = ([], [])"
| "exec e Quit = ([], [])"

text \<open>
  The loop passes each delivered message to \<^verbatim>\<open>Update\<close> and runs the command that comes
  back; \<^verbatim>\<open>tea.Quit\<close> ends the program.  The result is the last model and the requests
  issued so far.  One unit of fuel is one call of \<^verbatim>\<open>Update\<close>.
\<close>

fun event_loop ::
  "nat \<Rightarrow> env \<Rightarrow> model \<Rightarrow> Msg list \<Rightarrow> request list \<Rightarrow> (model \<times> request list) option" where
  "event_loop fuel e m [] issued = Some (m, issued)"
| "event_loop 0 e m (x # q) issued = None"
| "event_loop (Suc fuel) e m (x # q) issued =
     (case Update m x of
        (m', Quit) \<Rightarrow> Some (m', issued)
      | (m', c) \<Rightarrow>
          (case exec e c of (reqs, msgs) \<Rightarrow> event_loop fuel e m' (q @ msgs) (issued @ reqs)))"

definition run :: "nat \<Rightarrow> env \<Rightarrow> (model \<times> request list) option" where
  "run fuel e = (case exec e Init of (reqs, msgs) \<Rightarrow> event_loop fuel e initialModel msgs reqs)"

section \<open>Sample inputs\<close>


definition flags_4096 :: flags where
  "flags_4096 =
     \<lparr>port = 8080, rTimeout = 10000000000, wTimeout = 0, idleTimeout = 120000000000,
      chunkSize = 1024, randomize = False, defaultSize = 4096\<rparr>"

definition globals_sample :: globals_m where
  "globals_sample = \<lparr>payloadChunk_m = [], defaultDownloadSize = 4096, pingCounter = 0,
         downloadByteCnt = 0, uploadByteCnt = 0\<rparr>"

text \<open>Environments of a client run: every request answered; one upload stream or all of
  them refused; the ping answered with status 500; the ping refused.\<close>

definition ok_response :: http_Response where
  "ok_response = \<lparr>StatusCode = 200, resp_body = \<lparr>reads = [], ending = EOF\<rparr>\<rparr>"

definition env_all_ok :: env where
  "env_all_ok =
     \<lparr>ping_get = Some ok_response, ping_elapsed = 5000000,
      download_get = Some \<lparr>StatusCode = 200, resp_body = \<lparr>reads = [[0, 0], [0]], ending = EOF\<rparr>\<rparr>,
      download_elapsed = 1000000000,
      upload_do = (\<lambda>i. Do_response ok_response),
      upload_elapsed = 2000000000\<rparr>"


definition env_all_refused :: env where
  "env_all_refused = env_all_ok\<lparr>upload_do := (\<lambda>i. Do_error)\<rparr>"



section \<open>Properties of the server\<close>

subsection \<open>Decimal conversion\<close>

lemma digit_val_digit_char:
  assumes "d < 10"
  shows "digit_val (digit_char d) = Some d"
proof -
  have "d \<in> {0, 1, 2, 3, 4, 5, 6, 7, 8, 9}" using assms by auto
  then show ?thesis
    by (auto simp: digit_val_def digit_char_def)
qed

lemma parse_digits_append:
  "parse_digits (xs @ ys) acc =
     (case parse_digits xs acc of None \<Rightarrow> None | Some m \<Rightarrow> parse_digits ys m)"
  by (induction xs arbitrary: acc) (simp_all split: option.splits)

lemma parse_digits_digits_of: "parse_digits (digits_of n) 0 = Some n"
proof (induction n rule: digits_of.induct)
  case (1 n)
  show ?case
  proof (cases "n < 10")
    case True
    then show ?thesis
      by (subst digits_of.simps) (simp add: digit_val_digit_char)
  next
    case False
    then have "parse_digits (digits_of (n div 10)) 0 = Some (n div 10)"
      using 1 by simp
    then show ?thesis
      using False
      by (subst digits_of.simps) (simp add: parse_digits_append digit_val_digit_char)
  qed
qed

lemma digits_of_not_Nil: "digits_of n \<noteq> []"
  by (subst digits_of.simps) simp

lemma parse_digits_hd:
  "parse_digits (c # cs) acc = Some m \<Longrightarrow> digit_val c \<noteq> None"
  by (auto split: option.splits)

lemma digit_val_sign: "digit_val CHR ''-'' = None" "digit_val CHR ''+'' = None"
  by (simp_all add: digit_val_def)

lemma Atoi_digits_of:
  assumes "int n < 2 ^ 63"
  shows "Atoi (digits_of n) = Some (int n)"
proof -
  obtain c cs where cs: "digits_of n = c # cs"
    using digits_of_not_Nil by (cases "digits_of n") auto
  have p: "parse_digits (c # cs) 0 = Some n"
    using parse_digits_digits_of [of n] cs by simp
  then have "digit_val c \<noteq> None" by (rule parse_digits_hd)
  then have c: "c \<noteq> CHR ''-''" "c \<noteq> CHR ''+''"
    using digit_val_sign by auto
  show ?thesis
    using p c assms unfolding Atoi_def cs by (simp add: Let_def)
qed

lemma Atoi_Itoa:
  assumes "- (2 ^ 63) \<le> i" "i < 2 ^ 63"
  shows "Atoi (Itoa i) = Some i"
proof (cases "i < 0")
  case False
  then show ?thesis
    using assms Atoi_digits_of [of "nat i"] by (simp add: Itoa_def)
next
  case True
  have "parse_digits (digits_of (nat (- i))) 0 = Some (nat (- i))"
    by (rule parse_digits_digits_of)
  then show ?thesis
    using True assms digits_of_not_Nil [of "nat (- i)"]
    by (simp add: Itoa_def Atoi_def Let_def)
qed

lemma Atoi_range: "Atoi s = Some i \<Longrightarrow> - (2 ^ 63) \<le> i \<and> i < 2 ^ 63"
  by (auto simp: Atoi_def Let_def split: list.splits option.splits if_splits)

lemma Atoi_Nil: "Atoi [] = None"
  by (simp add: Atoi_def)

lemma parse_digits_Itoa: "parse_digits (Itoa (int n)) 0 = Some n"
  by (simp add: Itoa_def parse_digits_digits_of)


subsection \<open>The streaming loop\<close>

lemma expected_writes_0: "expected_writes chunk 0 = []"
  by (simp add: expected_writes_def)

lemma expected_writes_small:
  "0 < n \<Longrightarrow> n \<le> length chunk \<Longrightarrow> expected_writes chunk n = [take n chunk]"
  by (cases "n = length chunk") (simp_all add: expected_writes_def)

lemma expected_writes_big:
  assumes "length chunk < n" "0 < length chunk"
  shows "expected_writes chunk n = chunk # expected_writes chunk (n - length chunk)"
proof -
  have d: "n div length chunk = Suc ((n - length chunk) div length chunk)"
    using assms by (simp add: le_div_geq)
  have m: "n mod length chunk = (n - length chunk) mod length chunk"
    using assms by (simp add: le_mod_geq)
  show ?thesis
    unfolding expected_writes_def d m by simp
qed

lemma length_concat_expected_writes:
  assumes "0 < length chunk"
  shows "length (concat (expected_writes chunk n)) = n"
proof -
  have "n mod length chunk < length chunk"
    using assms by simp
  then have "length (concat (expected_writes chunk n)) =
      n div length chunk * length chunk + n mod length chunk"
    by (cases "n mod length chunk = 0")
       (simp_all add: expected_writes_def length_concat sum_list_replicate)
  then show ?thesis by simp
qed

lemma length_expected_writes:
  assumes "0 < length chunk"
  shows "length (expected_writes chunk n) = (n + length chunk - 1) div length chunk"
proof -
  define c where "c = length chunk"
  have c: "0 < c" using assms by (simp add: c_def)
  define q where "q = n div c"
  define r where "r = n mod c"
  have n: "n = c * q + r" by (simp add: q_def r_def)
  have r: "r < c" using c by (simp add: r_def)
  have "(n + c - 1) div c = q + (if r = 0 then 0 else 1)"
  proof (cases "r = 0")
    case True
    have "c * q \<le> n + c - 1" using n c by simp
    moreover have "n + c - 1 < c * q + c" using n c True by simp
    ultimately have "(n + c - 1) div c = q"
      by (intro div_nat_eqI) (simp_all add: algebra_simps)
    then show ?thesis using True by simp
  next
    case False
    have "c * q + c \<le> n + c - 1" using n False by simp
    moreover have "n + c - 1 < c * q + c + c" using n r by simp
    ultimately have "(n + c - 1) div c = Suc q"
      by (intro div_nat_eqI) (simp_all add: algebra_simps)
    then show ?thesis using False by simp
  qed
  then have "(n + c - 1) div c = n div c + (if n mod c = 0 then 0 else 1)"
    by (simp add: q_def r_def)
  then show ?thesis by (simp add: expected_writes_def c_def)
qed

lemma Write_ok:
  "writes_left w = None \<Longrightarrow>
   Write w bs = ((WriteHeader w 200)\<lparr>written := written w @ [bs]\<rparr>, True)"
  by (simp add: Write_def)

lemma WriteHeader_fields [simp]:
  "Header (WriteHeader w c) = Header w"
  "written (WriteHeader w c) = written w"
  "writes_left (WriteHeader w c) = writes_left w"
  "status (WriteHeader w c) = Some (case status w of None \<Rightarrow> c | Some s \<Rightarrow> s)"
  by (simp_all add: WriteHeader_def split: option.splits)

lemma new_writer_fields [simp]:
  "Header (new_writer k) = Map.empty" "status (new_writer k) = None"
  "written (new_writer k) = []" "writes_left (new_writer k) = k"
  by (simp_all add: new_writer_def)

lemma Header_Set_fields [simp]:
  "Header (Header_Set w k v) = (Header w)(k \<mapsto> v)"
  "status (Header_Set w k v) = status w"
  "written (Header_Set w k v) = written w"
  "writes_left (Header_Set w k v) = writes_left w"
  by (simp_all add: Header_Set_def)

lemma stream_loop_complete:
  assumes "0 < length chunk" "writes_left w = None"
    and "length (expected_writes chunk (nat (totalSize - sent))) \<le> fuel"
  shows "\<exists>w'. stream_loop fuel chunk totalSize sent w = Some (w', True) \<and>
           Header w' = Header w \<and> writes_left w' = None \<and>
           written w' = written w @ expected_writes chunk (nat (totalSize - sent)) \<and>
           status w' = (if sent < totalSize then status (WriteHeader w 200) else status w)"
  using assms
proof (induction fuel arbitrary: sent w)
  case 0
  then have "expected_writes chunk (nat (totalSize - sent)) = []" by simp
  then have "length (concat (expected_writes chunk (nat (totalSize - sent)))) = 0" by simp
  then have "nat (totalSize - sent) = 0"
    using 0(1) by (simp only: length_concat_expected_writes)
  then show ?case using 0(2) by (simp add: expected_writes_0)
next
  case (Suc fuel)
  show ?case
  proof (cases "sent < totalSize")
    case False
    then show ?thesis using Suc.prems(2) by (simp add: expected_writes_0)
  next
    case True
    define r where "r = nat (totalSize - sent)"
    have r: "0 < r" "totalSize - sent = int r" using True by (simp_all add: r_def)
    show ?thesis
    proof (cases "length chunk < r")
      case big: True
      define w1 where "w1 = (WriteHeader w 200)\<lparr>written := written w @ [chunk]\<rparr>"
      have ew: "expected_writes chunk r = chunk # expected_writes chunk (r - length chunk)"
        using big Suc.prems(1) by (rule expected_writes_big)
      have rest: "nat (totalSize - (sent + int (length chunk))) = r - length chunk"
        using big r by simp
      have fuel: "length (expected_writes chunk (nat (totalSize - (sent + int (length chunk))))) \<le> fuel"
        using Suc.prems(3) ew rest by (simp add: r_def)
      have w1: "writes_left w1 = None" using Suc.prems(2) by (simp add: w1_def)
      from Suc.IH [OF Suc.prems(1) w1 fuel]
      obtain w' where w': "stream_loop fuel chunk totalSize (sent + int (length chunk)) w1 = Some (w', True)"
        "Header w' = Header w1" "writes_left w' = None"
        "written w' = written w1 @ expected_writes chunk (r - length chunk)"
        "status w' = (if sent + int (length chunk) < totalSize then status (WriteHeader w1 200) else status w1)"
        unfolding rest by blast
      have step: "stream_loop (Suc fuel) chunk totalSize sent w =
                  stream_loop fuel chunk totalSize (sent + int (length chunk)) w1"
        using True big r Suc.prems(2) by (simp add: Write_ok w1_def Let_def)
      have st: "status w' = status (WriteHeader w 200)"
        using w'(5) by (simp add: w1_def WriteHeader_def split: option.splits)
      show ?thesis
        using step w' st True ew by (simp add: w1_def r_def [symmetric])
    next
      case small: False
      define w1 where "w1 = (WriteHeader w 200)\<lparr>written := written w @ [take r chunk]\<rparr>"
      have ew: "expected_writes chunk r = [take r chunk]"
        using small r(1) by (simp add: expected_writes_small)
      have tot: "sent + int r = totalSize" using r(2) by simp
      have step: "stream_loop (Suc fuel) chunk totalSize sent w =
                  stream_loop fuel chunk totalSize totalSize w1"
        using True small r Suc.prems(2) tot by (simp add: Write_ok w1_def Let_def r_def [symmetric])
      have fin: "stream_loop fuel chunk totalSize totalSize w1 = Some (w1, True)"
        by (cases fuel) simp_all
      show ?thesis
        using step fin True ew Suc.prems(2) by (simp add: w1_def r_def [symmetric])
    qed
  qed
qed


lemma stream_loop_fresh:
  assumes "chunk \<noteq> []" and "0 < n"
    and "(nat n + length chunk - 1) div length chunk \<le> fuel"
  shows "stream_loop fuel chunk n 0
           (Header_Set (Header_Set (new_writer None) ''Content-Type''
              ''application/octet-stream'') ''Content-Length'' (Itoa n)) =
         Some (full_response chunk n, True)"
proof -
  define w2 where "w2 = Header_Set (Header_Set (new_writer None) ''Content-Type''
      ''application/octet-stream'') ''Content-Length'' (Itoa n)"
  have c: "0 < length chunk" using assms(1) by simp
  have wl: "writes_left w2 = None" by (simp add: w2_def)
  have fuel: "length (expected_writes chunk (nat (n - 0))) \<le> fuel"
    using assms(3) c by (simp add: length_expected_writes)
  from stream_loop_complete [OF c wl fuel]
  obtain w' where w': "stream_loop fuel chunk n 0 w2 = Some (w', True)"
    "Header w' = Header w2" "writes_left w' = None"
    "written w' = written w2 @ expected_writes chunk (nat (n - 0))"
    "status w' = (if 0 < n then status (WriteHeader w2 200) else status w2)"
    by blast
  have "w' = full_response chunk n"
    using w'(2-5) assms(2) by (simp add: full_response_def w2_def)
  then show ?thesis using w'(1) by (simp add: w2_def)
qed

lemma full_response_length:
  "chunk \<noteq> [] \<Longrightarrow> 0 \<le> n \<Longrightarrow> length (body (full_response chunk n)) = nat n"
  by (simp add: full_response_def body_def length_concat_expected_writes)

lemma full_response_writes:
  "chunk \<noteq> [] \<Longrightarrow>
   length (written (full_response chunk n)) = (nat n + length chunk - 1) div length chunk"
  by (simp add: full_response_def length_expected_writes)

lemma downloadHandler_default:
  assumes "Values_Get query ''size'' = []" and "chunk \<noteq> []"
    and "(41943040 + length chunk - 1) div length chunk \<le> fuel"
  shows "downloadHandler fuel chunk query (new_writer None) =
         Some (full_response chunk 41943040)"
  using assms stream_loop_fresh [of chunk 41943040 fuel]
  by (simp add: downloadHandler_def)

lemma downloadHandler_m_default:
  assumes "Values_Get query ''size'' = []" and "payloadChunk_m g \<noteq> []"
    and "0 < defaultDownloadSize g"
    and "(nat (defaultDownloadSize g) + length (payloadChunk_m g) - 1) div
           length (payloadChunk_m g) \<le> fuel"
  shows "downloadHandler_m fuel g query (new_writer None) =
         Some (Returned (g\<lparr>downloadByteCnt := downloadByteCnt g + defaultDownloadSize g\<rparr>,
                         full_response (payloadChunk_m g) (defaultDownloadSize g)))"
  using assms stream_loop_fresh [of "payloadChunk_m g" "defaultDownloadSize g" fuel]
  by (simp add: downloadHandler_m_def Counter_Add_def)

lemma download_invalid:
  assumes "Values_Get query ''size'' = s" and "s \<noteq> []"
    and "Atoi s = None \<or> (\<exists>t. Atoi s = Some t \<and> t \<le> 0)"
  shows "downloadHandler fuel chunk query w = Some (http_Error w ''invalid size parameter'' 400)"
    and "downloadHandler_m fuel g query w =
         Some (Returned (g, http_Error w ''invalid size parameter'' 400))"
  using assms by (auto simp: downloadHandler_def downloadHandler_m_def)

lemma http_Error_fresh:
  "status (http_Error (new_writer k) msg code) = Some code"
  "written (http_Error (new_writer k) msg code) =
     (if k = Some 0 then [] else [bytes_of (msg @ [CHR 0x0A])])"
  "Header (http_Error (new_writer k) msg code) ''Content-Length'' = None"
  by (auto simp: http_Error_def Write_def Header_Del_def Let_def WriteHeader_def new_writer_def
        Header_Set_def split: option.splits nat.splits)

text \<open>
  Claim C1.  A download request whose \<^verbatim>\<open>size\<close> parameter parses to a number greater than
  zero is answered, by both revisions of the handler, with status 200, a
  \<^verbatim>\<open>Content-Length\<close> header that is the decimal text of the size (and parses back to it),
  and a body of exactly that many bytes: whole payload chunks followed by the truncated rest.
  The payload chunk is not empty, the connection stays up, and the fuel covers the
  \<open>\<lceil>size / chunk\<rceil>\<close> iterations of the loop.
\<close>

theorem C1_download_exact_size:
  assumes "Values_Get query ''size'' = s" and "Atoi s = Some sz" and "0 < sz"
    and "chunk \<noteq> []"
    and "(nat sz + length chunk - 1) div length chunk \<le> fuel"
  shows "\<exists>w'. downloadHandler fuel chunk query (new_writer None) = Some w' \<and>
           (\<exists>g'. downloadHandler_m fuel (g\<lparr>payloadChunk_m := chunk\<rparr>) query (new_writer None) =
                  Some (Returned (g', w'))) \<and>
           status w' = Some 200 \<and>
           Header w' ''Content-Length'' = Some (Itoa sz) \<and>
           Atoi (Itoa sz) = Some sz \<and>
           written w' = expected_writes chunk (nat sz) \<and>
           int (length (body w')) = sz"
proof -
  define w2 where "w2 = Header_Set (Header_Set (new_writer None) ''Content-Type''
      ''application/octet-stream'') ''Content-Length'' (Itoa sz)"
  have s: "s \<noteq> []" using assms(2) by (auto simp: Atoi_Nil)
  have c: "0 < length chunk" using assms(4) by simp
  have wl: "writes_left w2 = None" by (simp add: w2_def)
  have fuel: "length (expected_writes chunk (nat (sz - 0))) \<le> fuel"
    using assms(5) c by (simp add: length_expected_writes)
  from stream_loop_complete [OF c wl fuel]
  obtain w' where w': "stream_loop fuel chunk sz 0 w2 = Some (w', True)"
    "Header w' = Header w2" "written w' = written w2 @ expected_writes chunk (nat (sz - 0))"
    "status w' = (if 0 < sz then status (WriteHeader w2 200) else status w2)"
    by blast
  have h1: "downloadHandler fuel chunk query (new_writer None) = Some w'"
    using assms(1-3) s w'(1) by (simp add: downloadHandler_def Let_def w2_def)
  have h2: "downloadHandler_m fuel (g\<lparr>payloadChunk_m := chunk\<rparr>) query (new_writer None) =
      Some (Returned (g\<lparr>payloadChunk_m := chunk, downloadByteCnt := downloadByteCnt g + sz\<rparr>, w'))"
    using assms(1-3) s w'(1) by (simp add: downloadHandler_m_def Let_def w2_def Counter_Add_def)
  have st: "status w' = Some 200" using w'(4) assms(3) by (simp add: w2_def)
  have hd: "Header w' ''Content-Length'' = Some (Itoa sz)" using w'(2) by (simp add: w2_def)
  have wr: "written w' = expected_writes chunk (nat sz)" using w'(3) by (simp add: w2_def)
  have len: "int (length (body w')) = sz"
    using wr c assms(3) by (simp add: body_def length_concat_expected_writes)
  have rt: "Atoi (Itoa sz) = Some sz"
    using Atoi_range [OF assms(2)] by (simp add: Atoi_Itoa)
  show ?thesis using h1 h2 st hd wr len rt by blast
qed

theorem C1_download_exact_size_witness:
  "Values_Get [''size'' \<mapsto> [''5'']] ''size'' = ''5'' \<and> Atoi ''5'' = Some 5 \<and> (0::int) < 5 \<and>
   (\<exists>w'. downloadHandler 3 [1, 2] [''size'' \<mapsto> [''5'']] (new_writer None) = Some w' \<and>
         status w' = Some 200 \<and> written w' = [[1, 2], [1, 2], [1]] \<and>
         Header w' ''Content-Length'' = Some ''5'')"
proof -
  have a: "Values_Get [''size'' \<mapsto> [''5'']] ''size'' = ''5''"
    by (simp add: Values_Get_def)
  have b: "Atoi ''5'' = Some 5"
    by (simp add: Atoi_def digit_val_def)
  have c: "(0::int) < 5" by simp
  have d: "[1, 2 :: byte] \<noteq> []" by simp
  have e: "(nat 5 + length [1, 2 :: byte] - 1) div length [1, 2 :: byte] \<le> 3" by code_simp
  have f: "expected_writes [1, 2] (nat 5) = [[1, 2], [1, 2], [1]]" by code_simp
  have i: "Itoa 5 = ''5''" by (simp add: Itoa_def digits_of.simps digit_char_def)
  from C1_download_exact_size [OF a b c d e, of globals_sample]
  show ?thesis using a b i f by auto
qed

text \<open>
  Claim C9, as stated, fails for a \<^verbatim>\<open>size\<close> parameter that is present and empty: the
  empty string is not a number, and the handler serves the default size with status 200.
\<close>

theorem C9_empty_size_counterexample:
  "Atoi (Values_Get [''size'' \<mapsto> ['''']] ''size'') = None \<and>
   map_option status
     (downloadHandler 640 (replicate 65536 0) [''size'' \<mapsto> ['''']] (new_writer None)) =
     Some (Some 200) \<and>
   map_option (\<lambda>w. length (body w))
     (downloadHandler 640 (replicate 65536 0) [''size'' \<mapsto> ['''']] (new_writer None)) =
     Some 41943040"
proof -
  have v: "Values_Get [''size'' \<mapsto> ['''']] ''size'' = []"
    by (simp add: Values_Get_def)
  have c: "replicate 65536 (0::byte) \<noteq> []" by simp
  have f: "(41943040 + length (replicate 65536 (0::byte)) - 1) div
             length (replicate 65536 (0::byte)) \<le> 640"
    by simp
  have "downloadHandler 640 (replicate 65536 0) [''size'' \<mapsto> ['''']] (new_writer None) =
        Some (full_response (replicate 65536 0) 41943040)"
    using v c f by (rule downloadHandler_default)
  moreover have "length (body (full_response (replicate 65536 (0::byte)) 41943040)) = 41943040"
    using full_response_length [OF c, of 41943040] by simp
  moreover have "status (full_response (replicate 65536 (0::byte)) 41943040) = Some 200"
    by (simp add: full_response_def)
  ultimately show ?thesis using v by (simp add: Atoi_Nil)
qed

text \<open>
  Claim C9, amended.  For every non-empty \<^verbatim>\<open>size\<close> value that \<^verbatim>\<open>Atoi\<close> rejects or
  that parses to a number not above zero, the handler answers with status 400, writes the
  error message and nothing of the payload, and does so without entering the loop
  (whatever the fuel and the payload chunk).
\<close>

theorem C9_invalid_size:
  assumes "Values_Get query ''size'' = s" and "s \<noteq> []"
    and "Atoi s = None \<or> (\<exists>t. Atoi s = Some t \<and> t \<le> 0)"
  shows "\<exists>w'. downloadHandler fuel chunk query (new_writer k) = Some w' \<and>
           downloadHandler_m fuel g query (new_writer k) = Some (Returned (g, w')) \<and>
           status w' = Some 400 \<and>
           written w' = (if k = Some 0 then [] else [bytes_of (''invalid size parameter'' @ [CHR 0x0A])])"
  using download_invalid [OF assms, of fuel _ "new_writer k"]
  by (simp add: http_Error_fresh)

theorem C9_invalid_size_witness:
  "Values_Get [''size'' \<mapsto> [''-3'']] ''size'' = ''-3'' \<and> ''-3'' \<noteq> [] \<and> Atoi ''-3'' = Some (- 3) \<and>
   Atoi ''12a'' = None \<and>
   map_option status (downloadHandler 0 [1, 2] [''size'' \<mapsto> [''-3'']] (new_writer None)) =
     Some (Some 400) \<and>
   map_option written (downloadHandler 0 [1, 2] [''size'' \<mapsto> [''-3'']] (new_writer None)) =
     Some [bytes_of (''invalid size parameter'' @ [CHR 0x0A])]"
proof -
  have a: "Values_Get [''size'' \<mapsto> [''-3'']] ''size'' = ''-3''"
    by (simp add: Values_Get_def)
  have b: "''-3'' \<noteq> []" by simp
  have c: "Atoi ''-3'' = Some (- 3)" by (simp add: Atoi_def digit_val_def)
  have d: "Atoi ''-3'' = None \<or> (\<exists>t. Atoi ''-3'' = Some t \<and> t \<le> 0)"
    using c by simp
  have e: "Atoi ''12a'' = None" by (simp add: Atoi_def digit_val_def)
  from C9_invalid_size [OF a b d, of 0 "[1, 2]" None globals_sample]
  show ?thesis using a c e by auto
qed

text \<open>
  Claim C4 at the input of the scenario: started with \<^verbatim>\<open>chunk-size=1024\<close> and
  \<^verbatim>\<open>default-size=4096\<close>, the handler of \<^verbatim>\<open>src/main.go\<close> answers a request without
  \<^verbatim>\<open>size\<close> with 41943040 bytes in 40960 writes, while the handler of the second revision
  answers with 4096 bytes in 4 writes.
\<close>

theorem C4_default_size_ignored:
  "(case main flags_4096 None of
      Inl err \<Rightarrow> False
    | Inr s \<Rightarrow>
        map_option (\<lambda>w. (status w, length (written w), length (body w)))
          (downloadHandler 40960 (payloadChunk s) Map.empty (new_writer None)) =
        Some (Some 200, 40960, 41943040)) \<and>
   (case main_m flags_4096 None of
      Inl err \<Rightarrow> False
    | Inr s \<Rightarrow>
        (case downloadHandler_m 40960 (globals s) Map.empty (new_writer None) of
           Some (Returned (g, w)) \<Rightarrow>
             (status w, length (written w), length (body w)) = (Some 200, 4, 4096)
         | _ \<Rightarrow> False))"
proof -
  define chunk where "chunk = replicate 1024 (0 :: byte)"
  have p: "prepare_chunk flags_4096 None = Inr chunk"
    by (simp add: prepare_chunk_def make_bytes_def flags_4096_def chunk_def)
  have c: "chunk \<noteq> []" "length chunk = 1024" by (simp_all add: chunk_def)
  have v: "Values_Get Map.empty ''size'' = []" by (simp add: Values_Get_def)
  have "downloadHandler 40960 chunk Map.empty (new_writer None) =
        Some (full_response chunk 41943040)"
    using v c(1) by (rule downloadHandler_default) (simp add: c(2))
  moreover have "length (body (full_response chunk 41943040)) = 41943040"
    using full_response_length [OF c(1), of 41943040] by simp
  moreover have "length (written (full_response chunk 41943040)) = 40960"
    using full_response_writes [OF c(1), of 41943040] by (simp add: c(2))
  moreover have "status (full_response chunk 41943040) = Some 200"
    by (simp add: full_response_def)
  ultimately have m: "map_option (\<lambda>w. (status w, length (written w), length (body w)))
          (downloadHandler 40960 chunk Map.empty (new_writer None)) =
        Some (Some 200, 40960, 41943040)"
    by simp
  define g where "g = \<lparr>payloadChunk_m = chunk, defaultDownloadSize = 4096, pingCounter = 0,
                     downloadByteCnt = 0, uploadByteCnt = 0\<rparr>"
  have g: "payloadChunk_m g = chunk" "defaultDownloadSize g = 4096" by (simp_all add: g_def)
  have "downloadHandler_m 40960 g Map.empty (new_writer None) =
         Some (Returned (g\<lparr>downloadByteCnt := downloadByteCnt g + defaultDownloadSize g\<rparr>,
                         full_response (payloadChunk_m g) (defaultDownloadSize g)))"
    using v by (rule downloadHandler_m_default) (simp_all add: g c)
  moreover have "length (body (full_response chunk 4096)) = 4096"
    using full_response_length [OF c(1), of 4096] by simp
  moreover have "length (written (full_response chunk 4096)) = 4"
    using full_response_writes [OF c(1), of 4096] by (simp add: c(2))
  moreover have "status (full_response chunk 4096) = Some 200"
    by (simp add: full_response_def)
  ultimately have m2: "(case downloadHandler_m 40960 g Map.empty (new_writer None) of
           Some (Returned (g, w)) \<Rightarrow>
             (status w, length (written w), length (body w)) = (Some 200, 4, 4096)
         | _ \<Rightarrow> False)"
    by (simp add: g)
  show ?thesis
    using p m m2 by (simp add: main_def main_m_def flags_4096_def g_def)
qed

subsection \<open>The upload handler\<close>

lemma copy_loop_eq: "copy_loop cs e n = (n + int (length (concat cs)), e = ReadError)"
  by (induction cs arbitrary: n) simp_all

lemma io_Copy_Discard_eq:
  "io_Copy_Discard b = (int (length (concat (reads b))), ending b = ReadError)"
  by (simp add: io_Copy_Discard_def copy_loop_eq)

lemma upload_read_error:
  "ending b = ReadError \<Longrightarrow>
   uploadHandler b w = http_Error w ''error reading body'' 500"
  by (simp add: uploadHandler_def io_Copy_Discard_eq)

text \<open>
  Claim C3.  When the request body is read to its end without a read error, the upload
  handler answers with status 200 and the text \<^verbatim>\<open>received N bytes\<close>, where \<open>N\<close> is the
  decimal text of the exact number of bytes of the body; the second revision answers the
  same and adds that number to its counter.
\<close>

theorem C3_upload_count:
  assumes "ending b = EOF"
  shows "status (uploadHandler b (new_writer k)) = Some 200 \<and>
         (k \<noteq> Some 0 \<longrightarrow>
            written (uploadHandler b (new_writer k)) =
              [bytes_of (''received '' @ Itoa (int (length (concat (reads b)))) @ '' bytes'')]) \<and>
         parse_digits (Itoa (int (length (concat (reads b))))) 0 =
           Some (length (concat (reads b))) \<and>
         uploadHandler_m g b (new_writer k) =
           Returned (g\<lparr>uploadByteCnt := uploadByteCnt g + int (length (concat (reads b)))\<rparr>,
                     uploadHandler b (new_writer k))"
  using assms
  by (auto simp: uploadHandler_def uploadHandler_m_def io_Copy_Discard_eq Write_def Let_def
        parse_digits_Itoa Counter_Add_def split: option.splits nat.splits)

theorem C3_upload_count_witness:
  "ending \<lparr>reads = [[7, 8], [9]], ending = EOF\<rparr> = EOF \<and>
   status (uploadHandler \<lparr>reads = [[7, 8], [9]], ending = EOF\<rparr> (new_writer None)) = Some 200 \<and>
   written (uploadHandler \<lparr>reads = [[7, 8], [9]], ending = EOF\<rparr> (new_writer None)) =
     [bytes_of ''received 3 bytes'']"
proof -
  have e: "ending \<lparr>reads = [[7, 8], [9 :: byte]], ending = EOF\<rparr> = EOF" by simp
  have i: "Itoa 3 = ''3''" by (simp add: Itoa_def digits_of.simps digit_char_def)
  from C3_upload_count [OF e, of None] show ?thesis
    using i by simp
qed

subsection \<open>Start-up\<close>

lemma prepare_chunk_zeros:
  "0 \<le> chunkSize f \<Longrightarrow> \<not> randomize f \<Longrightarrow>
   prepare_chunk f rnd = Inr (replicate (nat (chunkSize f)) 0)"
  by (simp add: prepare_chunk_def make_bytes_def)






section \<open>Properties of the client\<close>

subsection \<open>The upload fan-out\<close>

lemma stream_goroutine_totals:
  "totalBytes (fst (stream_goroutine seg r st)) =
     totalBytes (fst st) + (if succeeded r then int seg else 0)"
  "counter (fst (stream_goroutine seg r st)) =
     counter (fst st) + (if succeeded r then int seg else 0)"
  by (cases r; simp add: stream_goroutine_def)+

lemma foldl_goroutines_totals:
  "totalBytes (fst (foldl (\<lambda>st r. stream_goroutine seg r st) st rs)) =
     totalBytes (fst st) + int seg * int (length (filter succeeded rs))"
  "counter (fst (foldl (\<lambda>st r. stream_goroutine seg r st) st rs)) =
     counter (fst st) + int seg * int (length (filter succeeded rs))"
  by (induction rs arbitrary: st; simp add: stream_goroutine_totals algebra_simps)+

lemma join_streams_totals:
  "totalBytes (fst (join_streams seg rs)) = int seg * int (length (filter succeeded rs))"
  "counter (fst (join_streams seg rs)) = int seg * int (length (filter succeeded rs))"
  by (simp_all add: join_streams_def foldl_goroutines_totals)

lemma count_succeeded_mset:
  assumes "mset rs' = mset rs"
  shows "length (filter succeeded rs') = length (filter succeeded rs)"
proof -
  have "size (mset (filter succeeded rs')) = size (mset (filter succeeded rs))"
    unfolding mset_filter assms ..
  then show ?thesis by (simp only: size_mset)
qed

lemma join_streams_schedule:
  "mset rs' = mset rs \<Longrightarrow>
   totalBytes (fst (join_streams seg rs')) = totalBytes (fst (join_streams seg rs))"
  using count_succeeded_mset [of rs' rs] by (simp add: join_streams_totals)

lemma filter_all:
  "\<forall>i<n. P (f i) \<Longrightarrow> filter P (map f [0 ..< n]) = map f [0 ..< n]"
  by (simp add: filter_id_conv)

lemma filter_none:
  "\<forall>i<n. \<not> P (f i) \<Longrightarrow> filter P (map f [0 ..< n]) = []"
  by (simp add: filter_empty_conv)

lemma uploadTestCmd_for_msgs:
  "snd (uploadTestCmd_for tSize nStreams e) =
     uploadMsg (int (tSize div nStreams) *
                int (length (filter succeeded (map (upload_do e) [0 ..< nStreams]))))
       (upload_elapsed e) #
     (case makeProgressCmd
           (int (tSize div nStreams) *
            int (length (filter succeeded (map (upload_do e) [0 ..< nStreams]))))
           (int tSize) ''upload'' of
        None \<Rightarrow> [] | Some msg \<Rightarrow> [msg])"
  unfolding uploadTestCmd_for_def Let_def case_prod_beta snd_conv join_streams_totals ..

text \<open>
  Claim C2.  With 1, 4 or 16 streams and a total size that the number of streams divides,
  when every stream succeeds the \<^verbatim>\<open>uploadMsg\<close> carries exactly the total size, and so does
  the shared counter after the join in whatever order the streams finish.
\<close>

theorem C2_fanout_total:
  assumes "nStreams \<in> {1, 4, 16}" and "nStreams dvd tSize"
    and "\<forall>i<nStreams. succeeded (upload_do e i)"
  shows "snd (uploadTestCmd_for tSize nStreams e) = [uploadMsg (int tSize) (upload_elapsed e)] \<and>
         (\<forall>rs. mset rs = mset (map (upload_do e) [0 ..< nStreams]) \<longrightarrow>
               totalBytes (fst (join_streams (tSize div nStreams) rs)) = int tSize)"
proof -
  have n: "length (filter succeeded (map (upload_do e) [0 ..< nStreams])) = nStreams"
    using assms(3) by (simp add: filter_all)
  have d: "tSize div nStreams * nStreams = tSize"
    using assms(2) by simp
  then have t: "int (tSize div nStreams) * int nStreams = int tSize"
    by (metis of_nat_mult)
  have 1: "snd (uploadTestCmd_for tSize nStreams e) = [uploadMsg (int tSize) (upload_elapsed e)]"
    unfolding uploadTestCmd_for_msgs n t by (simp add: makeProgressCmd_def)
  have 2: "totalBytes (fst (join_streams (tSize div nStreams) rs)) = int tSize"
    if "mset rs = mset (map (upload_do e) [0 ..< nStreams])" for rs
  proof -
    have "totalBytes (fst (join_streams (tSize div nStreams) rs)) =
          totalBytes (fst (join_streams (tSize div nStreams) (map (upload_do e) [0 ..< nStreams])))"
      using that by (rule join_streams_schedule)
    also have "\<dots> = int tSize"
      unfolding join_streams_totals n t ..
    finally show ?thesis .
  qed
  show ?thesis using 1 2 by blast
qed


theorem C2_fanout_total_witness:
  "(4 :: nat) \<in> {1, 4, 16} \<and> (4 :: nat) dvd 8 \<and>
   snd (uploadTestCmd_for 8 4 env_all_ok) = [uploadMsg 8 2000000000]"
proof -
  have a: "(4 :: nat) \<in> {1, 4, 16}" by simp
  have b: "(4 :: nat) dvd 8" by simp
  have c: "\<forall>i<4. succeeded (upload_do env_all_ok i)" by (simp add: env_all_ok_def)
  from C2_fanout_total [OF a b c] show ?thesis
    using a b by (simp add: env_all_ok_def)
qed



subsection \<open>The run of the driver\<close>

lemma Itoa_testSize: "Itoa (int testSize) = ''104857600''"
  by (simp add: testSize_def Itoa_def digits_of.simps digit_char_def)

lemma downloadTestCmd_eq:
  "downloadTestCmd e =
     ([GET (serverBase @ ''/download?size=104857600'')],
      [case download_get e of
         None \<Rightarrow> errorMsg
       | Some resp \<Rightarrow>
           if ending (resp_body resp) = ReadError then errorMsg
           else downloadMsg (int (length (concat (reads (resp_body resp))))) (download_elapsed e)])"
  by (simp add: downloadTestCmd_def Itoa_testSize io_Copy_Discard_eq split: option.splits)

lemma uploadTestCmd_msgs:
  "\<exists>rest. snd (uploadTestCmd e) =
     uploadMsg (int (testSize div streams) *
                int (length (filter succeeded (map (upload_do e) [0 ..< streams]))))
       (upload_elapsed e) # rest \<and> errorMsg \<notin> set rest"
  unfolding uploadTestCmd_def uploadTestCmd_for_msgs
  by (simp add: makeProgressCmd_def)



lemma run_done:
  assumes "ping_get e = Some r" and "download_get e = Some resp"
    and "ending (resp_body resp) = EOF"
  shows "\<exists>m. run (Suc (Suc (Suc fuel))) e =
           Some (m, [GET (serverBase @ ''/ping''), GET (serverBase @ ''/download?size=104857600'')]
                    @ fst (uploadTestCmd e)) \<and>
           phase m = ''done'' \<and> latency m = ping_elapsed e \<and>
           uploadSpeed m =
             f64_div (f64_div (float64 (int (testSize div streams) *
                        int (length (filter succeeded (map (upload_do e) [0 ..< streams])))))
                        (Seconds (upload_elapsed e))) (Fin (1024 * 1024))"
proof -
  obtain rest where u: "snd (uploadTestCmd e) =
     uploadMsg (int (testSize div streams) *
                int (length (filter succeeded (map (upload_do e) [0 ..< streams]))))
       (upload_elapsed e) # rest"
    using uploadTestCmd_msgs [of e] by blast
  obtain reqs where p: "uploadTestCmd e = (reqs,
     uploadMsg (int (testSize div streams) *
                int (length (filter succeeded (map (upload_do e) [0 ..< streams]))))
       (upload_elapsed e) # rest)"
    using u by (cases "uploadTestCmd e") simp
  show ?thesis
    using assms by (simp add: run_def Init_def pingTestCmd_def downloadTestCmd_eq p)
qed

lemma throughput_cases:
  "f64_div (f64_div (float64 b) (Seconds d)) (Fin (1024 * 1024)) =
     (if d = 0 then (if b = 0 then NaN else if 0 < b then PosInf else NegInf)
      else Fin (real_of_int b / (real_of_int d / 10 ^ 9) / (1024 * 1024)))"
  by (simp add: float64_def Seconds_def)

text \<open>
  Claim C5, as stated, fails: no guard stands before the division.  A \<^verbatim>\<open>downloadMsg\<close>
  with an elapsed time of zero moves the driver on to the upload phase with an infinite
  speed.
\<close>

theorem C5_zero_elapsed_counterexample:
  "downloadSpeed (fst (Update initialModel (downloadMsg 1048576 0))) = PosInf \<and>
   phase (fst (Update initialModel (downloadMsg 1048576 0))) = ''upload'' \<and>
   snd (Update initialModel (downloadMsg 1048576 0)) = UploadTest"
  by (simp add: float64_def Seconds_def)

text \<open>
  Claim C5, amended.  \<^verbatim>\<open>Update\<close> computes the speed as bytes / seconds / (1024 * 1024)
  for every message, with no guard: for an elapsed time of zero the stored speed is an
  infinity or not-a-number, and the driver moves to the next phase all the same.
\<close>

theorem C5_throughput_unguarded:
  "Update m (downloadMsg b d) =
     (m\<lparr>downloadSpeed :=
          (if d = 0 then (if b = 0 then NaN else if 0 < b then PosInf else NegInf)
           else Fin (real_of_int b / (real_of_int d / 10 ^ 9) / (1024 * 1024))),
        phase := ''upload''\<rparr>, UploadTest) \<and>
   Update m (uploadMsg b d) =
     (m\<lparr>uploadSpeed :=
          (if d = 0 then (if b = 0 then NaN else if 0 < b then PosInf else NegInf)
           else Fin (real_of_int b / (real_of_int d / 10 ^ 9) / (1024 * 1024))),
        phase := ''done''\<rparr>, Quit)"
  by (simp only: Update.simps throughput_cases simp_thms)

theorem C5_throughput_unguarded_witness:
  "downloadSpeed (fst (Update initialModel (downloadMsg 104857600 2000000000))) = Fin 50 \<and>
   phase (fst (Update initialModel (downloadMsg 104857600 2000000000))) = ''upload'' \<and>
   uploadSpeed (fst (Update initialModel (uploadMsg 0 0))) = NaN \<and>
   phase (fst (Update initialModel (uploadMsg 0 0))) = ''done''"
  using C5_throughput_unguarded [of initialModel 104857600 2000000000]
    C5_throughput_unguarded [of initialModel 0 0]
  by simp




text \<open>
  Claim C10.  \<^verbatim>\<open>uploadTestCmd\<close> never delivers an \<^verbatim>\<open>errorMsg\<close>.  When every stream
  fails it delivers an \<^verbatim>\<open>uploadMsg\<close> of zero bytes, on which \<^verbatim>\<open>Update\<close> moves to the phase
  \<^verbatim>\<open>done\<close> and quits; so a run whose ping and download succeeded ends in \<^verbatim>\<open>done\<close>,
  whatever the upload streams do.
\<close>

theorem C10_upload_never_errors:
  "errorMsg \<notin> set (snd (uploadTestCmd e)) \<and>
   ((\<forall>i < streams. \<not> succeeded (upload_do e i)) \<longrightarrow>
      snd (uploadTestCmd e) =
        [uploadMsg 0 (upload_elapsed e), progressMsg ''upload'' 0 (int testSize)] \<and>
      (ping_get e \<noteq> None \<and>
       (\<exists>resp. download_get e = Some resp \<and> ending (resp_body resp) = EOF) \<longrightarrow>
         (\<exists>m' issued. run (Suc (Suc (Suc fuel))) e = Some (m', issued) \<and>
            phase m' = ''done'' \<and>
            uploadSpeed m' = (if upload_elapsed e = 0 then NaN else Fin 0)))) \<and>
   phase (fst (Update m (uploadMsg 0 d))) = ''done'' \<and>
   snd (Update m (uploadMsg 0 d)) = Quit \<and>
   (ping_get e \<noteq> None \<and>
    (\<exists>resp. download_get e = Some resp \<and> ending (resp_body resp) = EOF) \<longrightarrow>
      (\<exists>m' issued. run (Suc (Suc (Suc fuel))) e = Some (m', issued) \<and> phase m' = ''done''))"
proof (intro conjI impI)
  show "errorMsg \<notin> set (snd (uploadTestCmd e))"
    using uploadTestCmd_msgs [of e] by auto
next
  assume "\<forall>i < streams. \<not> succeeded (upload_do e i)"
  then have none: "filter succeeded (map (upload_do e) [0 ..< streams]) = []"
    by (rule filter_none)
  then show "snd (uploadTestCmd e) =
        [uploadMsg 0 (upload_elapsed e), progressMsg ''upload'' 0 (int testSize)]"
    unfolding uploadTestCmd_def uploadTestCmd_for_msgs
    by (simp add: makeProgressCmd_def testSize_def)
  assume h: "ping_get e \<noteq> None \<and>
    (\<exists>resp. download_get e = Some resp \<and> ending (resp_body resp) = EOF)"
  then obtain r resp where "ping_get e = Some r" "download_get e = Some resp"
    "ending (resp_body resp) = EOF"
    by auto
  from run_done [OF this, of fuel]
  obtain m' where m': "run (Suc (Suc (Suc fuel))) e =
      Some (m', [GET (serverBase @ ''/ping''), GET (serverBase @ ''/download?size=104857600'')]
                @ fst (uploadTestCmd e))"
    "phase m' = ''done''"
    "uploadSpeed m' =
       f64_div (f64_div (float64 (int (testSize div streams) *
                  int (length (filter succeeded (map (upload_do e) [0 ..< streams])))))
                  (Seconds (upload_elapsed e))) (Fin (1024 * 1024))"
    by blast
  have "uploadSpeed m' = (if upload_elapsed e = 0 then NaN else Fin 0)"
    unfolding m'(3) none by (simp add: float64_def Seconds_def)
  then show "\<exists>m' issued. run (Suc (Suc (Suc fuel))) e = Some (m', issued) \<and>
      phase m' = ''done'' \<and> uploadSpeed m' = (if upload_elapsed e = 0 then NaN else Fin 0)"
    using m'(1,2) by blast
next
  show "phase (fst (Update m (uploadMsg 0 d))) = ''done''" by simp
next
  show "snd (Update m (uploadMsg 0 d)) = Quit" by simp
next
  assume h: "ping_get e \<noteq> None \<and>
    (\<exists>resp. download_get e = Some resp \<and> ending (resp_body resp) = EOF)"
  then obtain r resp where "ping_get e = Some r" "download_get e = Some resp"
    "ending (resp_body resp) = EOF"
    by auto
  from run_done [OF this, of fuel]
  show "\<exists>m' issued. run (Suc (Suc (Suc fuel))) e = Some (m', issued) \<and> phase m' = ''done''"
    by blast
qed

theorem C10_upload_never_errors_witness:
  "snd (uploadTestCmd env_all_refused) =
     [uploadMsg 0 2000000000, progressMsg ''upload'' 0 104857600] \<and>
   map_option (phase \<circ> fst) (run 3 env_all_refused) = Some ''done'' \<and>
   map_option (uploadSpeed \<circ> fst) (run 3 env_all_refused) = Some (Fin 0)"
proof -
  have a: "\<forall>i < streams. \<not> succeeded (upload_do env_all_refused i)"
    by (simp add: env_all_refused_def)
  have b: "ping_get env_all_refused \<noteq> None \<and>
    (\<exists>resp. download_get env_all_refused = Some resp \<and> ending (resp_body resp) = EOF)"
    by (simp add: env_all_refused_def env_all_ok_def)
  have c: "3 = Suc (Suc (Suc 0))" by simp
  from C10_upload_never_errors [where e = env_all_refused and m = initialModel and d = 0
      and fuel = 0] a b
  have "snd (uploadTestCmd env_all_refused) =
        [uploadMsg 0 (upload_elapsed env_all_refused), progressMsg ''upload'' 0 (int testSize)]"
    and "\<exists>m' issued. run (Suc (Suc (Suc 0))) env_all_refused = Some (m', issued) \<and>
           phase m' = ''done'' \<and>
           uploadSpeed m' = (if upload_elapsed env_all_refused = 0 then NaN else Fin 0)"
    by blast+
  then show ?thesis
    unfolding c by (auto simp: env_all_refused_def env_all_ok_def testSize_def)
qed

end
